theory Spec2Isabelle
  imports Complex_Main "HOL-Library.AList" "HOL-Library.Sublist"
begin

section \<open>Text and character classes\<close>

text \<open>
  A Python \<open>str\<close> is a sequence of code points. The model takes the code points
  \<open>0 .. 255\<close> (ASCII and Latin-1), one \<^typ>\<open>char\<close> each, so \<^typ>\<open>string\<close> stands for the
  texts over that range. Every label and every captured character of the patterns below
  is ASCII.

  \<open>text.lower()\<close>: on this range \<open>A .. Z\<close> and the Latin-1 capitals \<open>0xC0 .. 0xDE\<close>
  (without the multiplication sign \<open>0xD7\<close>) move up by 32; every other code point is
  unchanged.
\<close>

definition lower_char :: "char \<Rightarrow> char" where
  "lower_char c =
     (let n = (of_char c :: nat)
      in if (65 \<le> n \<and> n \<le> 90) \<or> (192 \<le> n \<and> n \<le> 222 \<and> n \<noteq> 215)
         then char_of (n + 32) else c)"

definition lower :: "string \<Rightarrow> string" where
  "lower s = map lower_char s"

text \<open>
  The class \<open>\s\<close> of a \<open>str\<close> pattern is Unicode white space; below 256 these are
  tab, line feed, vertical tab, form feed, carriage return, the four separators
  \<open>0x1C .. 0x1F\<close>, space, \<open>0x85\<close> and the no-break space \<open>0xA0\<close>.
  \<open>is_sep\<close> is the class \<open>[\s:$]\<close>, \<open>is_digit\<close> is \<open>[0-9]\<close> and \<open>is_numch\<close> is
  \<open>[0-9,]\<close>.
\<close>

definition is_space :: "char \<Rightarrow> bool" where
  "is_space c = ((of_char c :: nat) \<in> {9, 10, 11, 12, 13, 28, 29, 30, 31, 32, 133, 160})"

definition is_sep :: "char \<Rightarrow> bool" where
  "is_sep c = (is_space c \<or> c = CHR '':'' \<or> c = CHR ''$'')"

definition is_digit :: "char \<Rightarrow> bool" where
  "is_digit c = (48 \<le> (of_char c :: nat) \<and> (of_char c :: nat) \<le> 57)"

definition is_numch :: "char \<Rightarrow> bool" where
  "is_numch c = (is_digit c \<or> c = CHR '','')"

section \<open>The metric patterns and \<open>re.findall\<close>\<close>

text \<open>
  Each entry of \<open>patterns\<close> in \<open>extract_financial_metrics\<close> is a regular expression
  of one shape,
  \<^verbatim>\<open>(?:label_1|...|label_n)[\s:$]*([0-9,]+(?:\.[0-9]+)?)\<close>
  so an entry is kept as the ordered list of its labels, in the order of the dictionary
  literal, and the tail common to all six is the matcher \<open>match_tail\<close>.
\<close>

definition patterns :: "(string \<times> string list) list" where
  "patterns =
     [(''revenue'', [''revenue'', ''sales'', ''income'']),
      (''expenses'', [''expenses'', ''costs'']),
      (''profit'', [''profit'', ''net income'', ''earnings'']),
      (''assets'', [''total assets'', ''assets'']),
      (''liabilities'', [''total liabilities'', ''liabilities'']),
      (''equity'', [''equity'', ''shareholders equity''])]"

text \<open>
  \<open>strip_prefix a s\<close> matches the literal \<open>a\<close> at the start of \<open>s\<close> and returns what
  follows it.
\<close>

fun strip_prefix :: "string \<Rightarrow> string \<Rightarrow> string option" where
  "strip_prefix [] s = Some s"
| "strip_prefix (p # ps) [] = None"
| "strip_prefix (p # ps) (c # cs) = (if p = c then strip_prefix ps cs else None)"

text \<open>
  The group \<^verbatim>\<open>([0-9,]+(?:\.[0-9]+)?)\<close> at the start of \<open>s\<close>: the result is the captured
  text and the rest of \<open>s\<close>. Both quantifiers are greedy and nothing follows the group in
  the pattern, so the engine's first successful path is the longest run of \<open>[0-9,]\<close>,
  followed by a point and the longest run of digits when a point and a digit come next;
  the group fails only when \<open>s\<close> does not start with a character of \<open>[0-9,]\<close>.
\<close>

definition match_number :: "string \<Rightarrow> (string \<times> string) option" where
  "match_number s =
     (let ds = takeWhile is_numch s; r = dropWhile is_numch s
      in if ds = [] then None
         else (case r of
                 [] \<Rightarrow> Some (ds, r)
               | c # r' \<Rightarrow>
                   if c = CHR ''.'' \<and> takeWhile is_digit r' \<noteq> []
                   then Some (ds @ c # takeWhile is_digit r', dropWhile is_digit r')
                   else Some (ds, r)))"

text \<open>
  \<^verbatim>\<open>[\s:$]*\<close> before the group: the classes \<open>[\s:$]\<close> and \<open>[0-9,]\<close> are disjoint, so
  giving back a separator never lets the group start; the greedy run of separators is the
  only path that can succeed.
\<close>

definition match_tail :: "string \<Rightarrow> (string \<times> string) option" where
  "match_tail s = match_number (dropWhile is_sep s)"

text \<open>
  The whole pattern at the start of \<open>s\<close>: the alternatives are tried in the order they are
  written, and the engine goes on to the next alternative when the tail fails after a
  label that matched.
\<close>

fun match_alts :: "string list \<Rightarrow> string \<Rightarrow> (string \<times> string) option" where
  "match_alts [] s = None"
| "match_alts (a # as) s =
     (case strip_prefix a s of
        None \<Rightarrow> match_alts as s
      | Some r \<Rightarrow> (case match_tail r of None \<Rightarrow> match_alts as s | Some m \<Rightarrow> Some m))"

lemma strip_prefix_Some: "strip_prefix a s = Some r \<longleftrightarrow> s = a @ r"
  by (induction a s rule: strip_prefix.induct) auto

lemma match_number_split: "match_number s = Some (c, r) \<Longrightarrow> s = c @ r \<and> c \<noteq> []"
proof -
  assume m: "match_number s = Some (c, r)"
  have a: "s = takeWhile is_numch s @ dropWhile is_numch s" by simp
  show ?thesis
  proof (cases "dropWhile is_numch s")
    case Nil
    with m a show ?thesis
      by (auto simp: match_number_def Let_def split: if_splits)
  next
    case (Cons x r')
    have b: "r' = takeWhile is_digit r' @ dropWhile is_digit r'" by simp
    from m Cons a b show ?thesis
      by (auto simp: match_number_def Let_def split: if_splits)
  qed
qed

lemma match_tail_length: "match_tail s = Some (c, r) \<Longrightarrow> length r < length s"
proof -
  assume "match_tail s = Some (c, r)"
  then have "dropWhile is_sep s = c @ r \<and> c \<noteq> []"
    unfolding match_tail_def by (rule match_number_split)
  moreover have "length (dropWhile is_sep s) \<le> length s"
    by (rule length_dropWhile_le)
  ultimately show ?thesis
    by (cases c) auto
qed

lemma match_alts_length: "match_alts as s = Some (c, r) \<Longrightarrow> length r < length s"
proof (induction as)
  case Nil
  then show ?case by simp
next
  case (Cons a as)
  show ?case
  proof (cases "strip_prefix a s")
    case None
    with Cons show ?thesis by simp
  next
    case (Some q)
    then have s: "s = a @ q" by (simp add: strip_prefix_Some)
    show ?thesis
    proof (cases "match_tail q")
      case None
      with Some Cons show ?thesis by simp
    next
      case (Some m)
      with \<open>strip_prefix a s = Some q\<close> Cons.prems have "match_tail q = Some (c, r)"
        by simp
      then have "length r < length q" by (rule match_tail_length)
      with s show ?thesis by simp
    qed
  qed
qed

text \<open>
  \<open>re.findall(pattern, s)\<close> with one group: scan from the left; where the pattern matches,
  record the group and go on behind the match; elsewhere move one character on. A match
  holds at least one character of \<open>[0-9,]\<close>, so the scan always advances.
\<close>

function findall :: "string list \<Rightarrow> string \<Rightarrow> string list" where
  "findall as s =
     (case match_alts as s of
        Some (c, r) \<Rightarrow> c # findall as r
      | None \<Rightarrow> (case s of [] \<Rightarrow> [] | x # s' \<Rightarrow> findall as s'))"
  by pat_completeness auto
termination
  by (relation "measure (\<lambda>(as, s). length s)") (auto dest: match_alts_length)

lemma match_alts_Nil: "match_alts as [] = None"
proof (cases "match_alts as []")
  case None
  then show ?thesis .
next
  case (Some m)
  then have "length (snd m) < length ([] :: string)"
    by (cases m) (auto dest: match_alts_length)
  then show ?thesis by simp
qed

lemma findall_Nil: "findall as [] = []"
  by (simp add: match_alts_Nil)

lemma findall_Cons:
  "findall as (x # s) =
     (case match_alts as (x # s) of Some (c, r) \<Rightarrow> c # findall as r | None \<Rightarrow> findall as s)"
  by (simp split: option.splits)

declare findall.simps [simp del]

section \<open>Number parsing\<close>

text \<open>
  A metric's value is a Python \<open>float\<close> or a \<open>str\<close>. \<open>float(value)\<close> rounds the decimal
  numeral \<open>value\<close> to the nearest IEEE binary64 number; the rounding is a function of the
  numeral's rational value alone, and \<open>Float q\<close> stands for the float that \<open>float\<close>
  returns for a numeral of value \<open>q\<close> (the float written \<open>45000.0\<close> in Python is
  \<open>Float 45000\<close>).
\<close>

datatype metric_value = Float rat | Str string

definition digits_val :: "string \<Rightarrow> nat" where
  "digits_val ds = foldl (\<lambda>a c. 10 * a + (of_char c - 48)) 0 ds"

text \<open>
  \<open>float(s)\<close> on the strings that \<open>extract_financial_metrics\<close> passes to it, which hold
  digits and at most one point: the result is \<open>None\<close> where Python raises \<open>ValueError\<close>,
  that is when \<open>s\<close> holds no digit. Strings with any other character are outside what
  the extraction can produce (lemma \<open>findall_hd_token\<close>) and \<open>py_float\<close> is \<open>None\<close> on them.
\<close>

definition py_float :: "string \<Rightarrow> rat option" where
  "py_float s =
     (let ip = takeWhile is_digit s; r = dropWhile is_digit s
      in case r of
           [] \<Rightarrow> if ip = [] then None else Some (of_nat (digits_val ip))
         | c # fp \<Rightarrow>
             if c = CHR ''.'' \<and> list_all is_digit fp \<and> (ip \<noteq> [] \<or> fp \<noteq> [])
             then Some (of_nat (digits_val ip) + of_nat (digits_val fp) / 10 ^ length fp)
             else None)"

section \<open>DocumentProcessor.extract_financial_metrics\<close>

text \<open>
  The result dictionary \<open>metrics\<close> keeps insertion order; it is an association list
  and \<open>metrics[metric] = v\<close> is \<open>AList.update\<close>, which overwrites in place or appends.
  \<open>metric_step\<close> is the body of the loop over \<open>patterns.items()\<close>.
\<close>

definition replace_commas :: "string \<Rightarrow> string" where
  "replace_commas m = filter (\<lambda>c. c \<noteq> CHR '','') m"

definition metric_step ::
  "string \<Rightarrow> string \<times> string list \<Rightarrow> (string \<times> metric_value) list
     \<Rightarrow> (string \<times> metric_value) list" where
  "metric_step text p metrics =
     (case findall (snd p) (lower text) of
        [] \<Rightarrow> metrics
      | m # ms \<Rightarrow>
          (let v = replace_commas m
           in case py_float v of
                Some f \<Rightarrow> AList.update (fst p) (Float f) metrics
              | None \<Rightarrow> AList.update (fst p) (Str v) metrics))"

definition extract_financial_metrics :: "string \<Rightarrow> (string \<times> metric_value) list" where
  "extract_financial_metrics text = foldl (\<lambda>metrics p. metric_step text p metrics) [] patterns"

lemma numch_not_sep: "is_numch d \<Longrightarrow> \<not> is_sep d"
  by (auto simp: is_numch_def is_digit_def is_sep_def is_space_def)

lemma digit_numch: "is_digit d \<Longrightarrow> is_numch d"
  by (simp add: is_numch_def)

lemma point_not_numch: "\<not> is_numch (CHR ''.'')"
  by (simp add: is_numch_def is_digit_def)

section \<open>Occurrences of a label with a figure\<close>

text \<open>
  The notions the statements about the extraction are phrased in. \<open>occurs_at as s i\<close>: at
  position \<open>i\<close> of \<open>s\<close> stands one of the labels \<open>as\<close>, then any number of characters of
  \<open>[\s:$]\<close>, then a character of \<open>[0-9,]\<close>, the start of a numeric token.
\<close>

definition occurs_at :: "string list \<Rightarrow> string \<Rightarrow> nat \<Rightarrow> bool" where
  "occurs_at as s i \<longleftrightarrow>
     (\<exists>a \<in> set as. \<exists>seps d rest.
        drop i s = a @ seps @ d # rest \<and> (\<forall>x \<in> set seps. is_sep x) \<and> is_numch d)"

lemma match_number_None: "match_number s = None \<longleftrightarrow> (case s of [] \<Rightarrow> True | d # r \<Rightarrow> \<not> is_numch d)"
  by (cases s) (auto simp: match_number_def Let_def split: list.splits)

lemma match_tail_iff:
  "match_tail s \<noteq> None \<longleftrightarrow>
     (\<exists>seps d rest. s = seps @ d # rest \<and> (\<forall>x \<in> set seps. is_sep x) \<and> is_numch d)"
proof
  assume "match_tail s \<noteq> None"
  then obtain d rest where dr: "dropWhile is_sep s = d # rest" and d: "is_numch d"
    by (auto simp: match_tail_def match_number_None split: list.splits)
  have "s = takeWhile is_sep s @ d # rest"
    using dr takeWhile_dropWhile_id [of is_sep s] by simp
  moreover have "\<forall>x \<in> set (takeWhile is_sep s). is_sep x"
    by (auto dest: set_takeWhileD)
  ultimately show "\<exists>seps d rest. s = seps @ d # rest \<and> (\<forall>x \<in> set seps. is_sep x) \<and> is_numch d"
    using d by blast
next
  assume "\<exists>seps d rest. s = seps @ d # rest \<and> (\<forall>x \<in> set seps. is_sep x) \<and> is_numch d"
  then obtain seps d rest where s: "s = seps @ d # rest"
    and seps: "\<forall>x \<in> set seps. is_sep x" and d: "is_numch d"
    by blast
  have "dropWhile is_sep s = d # rest"
    using s seps d by (simp add: dropWhile_append2 numch_not_sep)
  then show "match_tail s \<noteq> None"
    using d by (simp add: match_tail_def match_number_None)
qed

lemma match_alts_iff:
  "match_alts as s \<noteq> None \<longleftrightarrow> (\<exists>a \<in> set as. \<exists>r. s = a @ r \<and> match_tail r \<noteq> None)"
proof (induction as)
  case Nil
  show ?case by simp
next
  case (Cons b as)
  show ?case
  proof (cases "strip_prefix b s")
    case None
    then have "\<And>r. s \<noteq> b @ r"
      using strip_prefix_Some [of b s] by auto
    with None Cons show ?thesis by auto
  next
    case (Some q)
    then have s: "s = b @ q" by (simp add: strip_prefix_Some)
    show ?thesis
    proof (cases "match_tail q")
      case None
      with Some s Cons show ?thesis by auto
    next
      case (Some m)
      with \<open>strip_prefix b s = Some q\<close> s show ?thesis by auto
    qed
  qed
qed


lemma occurs_at_iff: "occurs_at as s i \<longleftrightarrow> match_alts as (drop i s) \<noteq> None"
  unfolding occurs_at_def match_alts_iff match_tail_iff
  by blast

lemma findall_empty_iff: "findall as s = [] \<longleftrightarrow> (\<forall>i. match_alts as (drop i s) = None)"
proof (induction s)
  case Nil
  show ?case by (simp add: findall_Nil match_alts_Nil)
next
  case (Cons x s)
  show ?case
  proof (cases "match_alts as (x # s)")
    case (Some m)
    have "drop 0 (x # s) = x # s" by simp
    with Some have "\<not> (\<forall>i. match_alts as (drop i (x # s)) = None)"
      by (metis option.distinct(1))
    with Some show ?thesis
      by (simp add: findall_Cons split: prod.splits)
  next
    case None
    have "(\<forall>i. match_alts as (drop i (x # s)) = None) \<longleftrightarrow> (\<forall>i. match_alts as (drop i s) = None)"
    proof
      assume a: "\<forall>i. match_alts as (drop i (x # s)) = None"
      show "\<forall>i. match_alts as (drop i s) = None"
      proof
        fix i
        from a have "match_alts as (drop (Suc i) (x # s)) = None" by blast
        then show "match_alts as (drop i s) = None" by simp
      qed
    next
      assume a: "\<forall>i. match_alts as (drop i s) = None"
      show "\<forall>i. match_alts as (drop i (x # s)) = None"
      proof
        fix i
        show "match_alts as (drop i (x # s)) = None"
          using a None by (cases i) simp_all
      qed
    qed
    with None Cons show ?thesis
      by (simp add: findall_Cons)
  qed
qed

lemma findall_first:
  "\<forall>j<i. match_alts as (drop j s) = None \<Longrightarrow> match_alts as (drop i s) = Some (c, r)
     \<Longrightarrow> findall as s = c # findall as r"
proof (induction i arbitrary: s)
  case 0
  then have m: "match_alts as s = Some (c, r)" by simp
  then obtain x s' where "s = x # s'"
    by (cases s) (simp_all add: match_alts_Nil)
  with m show ?case by (simp add: findall_Cons)
next
  case (Suc i)
  from Suc.prems(2) obtain x s' where s: "s = x # s'"
    by (cases s) (simp_all add: match_alts_Nil)
  from Suc.prems(1) have "match_alts as (drop 0 s) = None" by blast
  then have n: "match_alts as (x # s') = None" using s by simp
  have "\<forall>j<i. match_alts as (drop j s') = None"
  proof (intro allI impI)
    fix j assume "j < i"
    then have "match_alts as (drop (Suc j) s) = None" using Suc.prems(1) by simp
    then show "match_alts as (drop j s') = None" using s by simp
  qed
  moreover have "match_alts as (drop i s') = Some (c, r)"
    using Suc.prems(2) s by simp
  ultimately have "findall as s' = c # findall as r" by (rule Suc.IH)
  with n s show ?case by (simp add: findall_Cons)
qed

text \<open>
  \<open>number_token tok rest\<close>: \<open>tok\<close> is a numeric token that ends where \<open>rest\<close> begins. It is
  a run of digits and commas that \<open>rest\<close> does not extend (\<open>rest\<close> starts neither with a
  digit or comma nor with a point and a digit), or such a run, a point and a run of
  digits that \<open>rest\<close> does not extend (\<open>rest\<close> does not start with a digit).
\<close>

definition stops_int :: "string \<Rightarrow> bool" where
  "stops_int rest =
     (case rest of
        [] \<Rightarrow> True
      | x # r \<Rightarrow> \<not> is_numch x \<and> \<not> (x = CHR ''.'' \<and> (case r of [] \<Rightarrow> False | y # r' \<Rightarrow> is_digit y)))"

definition stops_frac :: "string \<Rightarrow> bool" where
  "stops_frac rest = (case rest of [] \<Rightarrow> True | x # r \<Rightarrow> \<not> is_digit x)"

definition number_token :: "string \<Rightarrow> string \<Rightarrow> bool" where
  "number_token tok rest \<longleftrightarrow>
     (tok \<noteq> [] \<and> (\<forall>x \<in> set tok. is_numch x) \<and> stops_int rest) \<or>
     (\<exists>ds fs. tok = ds @ CHR ''.'' # fs \<and> ds \<noteq> [] \<and> (\<forall>x \<in> set ds. is_numch x) \<and>
        fs \<noteq> [] \<and> (\<forall>x \<in> set fs. is_digit x) \<and> stops_frac rest)"

lemma takeWhile_stop:
  "\<forall>x \<in> set xs. P x \<Longrightarrow> (case ys of [] \<Rightarrow> True | y # r \<Rightarrow> \<not> P y) \<Longrightarrow>
     takeWhile P (xs @ ys) = xs \<and> dropWhile P (xs @ ys) = ys"
  by (cases ys) (simp_all add: takeWhile_append2 dropWhile_append2)

lemma takeWhile_digit_Nil: "takeWhile is_digit r = [] \<longleftrightarrow> (case r of [] \<Rightarrow> True | y # r' \<Rightarrow> \<not> is_digit y)"
  by (cases r) simp_all

lemma match_number_token:
  assumes "number_token tok rest"
  shows "match_number (tok @ rest) = Some (tok, rest)"
  using assms unfolding number_token_def
proof (elim disjE exE conjE)
  assume tok: "tok \<noteq> []" "\<forall>x \<in> set tok. is_numch x" and st: "stops_int rest"
  from st have "case rest of [] \<Rightarrow> True | y # r \<Rightarrow> \<not> is_numch y"
    by (simp add: stops_int_def split: list.splits)
  with tok have "takeWhile is_numch (tok @ rest) = tok \<and> dropWhile is_numch (tok @ rest) = rest"
    by (intro takeWhile_stop) simp_all
  then have t: "takeWhile is_numch (tok @ rest) = tok" and d: "dropWhile is_numch (tok @ rest) = rest"
    by blast+
  have "case rest of [] \<Rightarrow> True | x # r \<Rightarrow> \<not> (x = CHR ''.'' \<and> takeWhile is_digit r \<noteq> [])"
    using st by (auto simp: stops_int_def takeWhile_digit_Nil split: list.splits)
  then show ?thesis
    unfolding match_number_def Let_def t d using tok(1)
    by (auto split: list.splits)
next
  fix ds fs
  assume tok: "tok = ds @ CHR ''.'' # fs" and ds: "ds \<noteq> []" "\<forall>x \<in> set ds. is_numch x"
    and fs: "fs \<noteq> []" "\<forall>x \<in> set fs. is_digit x" and st: "stops_frac rest"
  have "case CHR ''.'' # fs @ rest of [] \<Rightarrow> True | y # r \<Rightarrow> \<not> is_numch y"
    by (simp add: point_not_numch)
  with ds have "takeWhile is_numch (ds @ CHR ''.'' # fs @ rest) = ds \<and>
      dropWhile is_numch (ds @ CHR ''.'' # fs @ rest) = CHR ''.'' # fs @ rest"
    by (intro takeWhile_stop) simp_all
  then have t: "takeWhile is_numch (tok @ rest) = ds"
    and d: "dropWhile is_numch (tok @ rest) = CHR ''.'' # fs @ rest"
    by (simp_all add: tok)
  from st have "case rest of [] \<Rightarrow> True | y # r \<Rightarrow> \<not> is_digit y"
    by (simp add: stops_frac_def)
  with fs have "takeWhile is_digit (fs @ rest) = fs \<and> dropWhile is_digit (fs @ rest) = rest"
    by (intro takeWhile_stop) simp_all
  then have tf: "takeWhile is_digit (fs @ rest) = fs" and df: "dropWhile is_digit (fs @ rest) = rest"
    by blast+
  show ?thesis
    unfolding match_number_def Let_def t d using ds(1) fs(1)
    by (simp add: tf df tok)
qed

lemma dropWhile_stop: "case dropWhile P xs of [] \<Rightarrow> True | y # r \<Rightarrow> \<not> P y"
proof (cases "dropWhile P xs")
  case Nil
  show ?thesis unfolding Nil by simp
next
  case (Cons y r)
  then have "\<not> P (hd (dropWhile P xs))"
    using hd_dropWhile [of P xs] by simp
  with Cons show ?thesis by simp
qed

lemma match_number_sound:
  assumes "match_number s = Some (c, r)"
  shows "number_token c r"
proof -
  let ?ds = "takeWhile is_numch s" and ?q = "dropWhile is_numch s"
  from assms have ds: "?ds \<noteq> []"
    by (auto simp: match_number_def Let_def split: if_splits)
  have dsn: "\<forall>x \<in> set ?ds. is_numch x" by (auto dest: set_takeWhileD)
  have hq: "case ?q of [] \<Rightarrow> True | y # r \<Rightarrow> \<not> is_numch y"
    by (rule dropWhile_stop)
  show ?thesis
  proof (cases ?q)
    case Nil
    with assms ds have "c = ?ds" "r = []"
      by (auto simp: match_number_def)
    with ds dsn show ?thesis
      by (simp add: number_token_def stops_int_def)
  next
    case (Cons x r')
    show ?thesis
    proof (cases "x = CHR ''.'' \<and> takeWhile is_digit r' \<noteq> []")
      case True
      with assms ds Cons have c: "c = ?ds @ CHR ''.'' # takeWhile is_digit r'"
        and r: "r = dropWhile is_digit r'"
        by (auto simp: match_number_def)
      have "\<forall>x \<in> set (takeWhile is_digit r'). is_digit x" by (auto dest: set_takeWhileD)
      moreover have "stops_frac r"
        unfolding r stops_frac_def by (rule dropWhile_stop)
      ultimately show ?thesis
        using c ds dsn True unfolding number_token_def by blast
    next
      case False
      with assms ds Cons have c: "c = ?ds" and r: "r = x # r'"
        by (auto simp: match_number_def)
      have "stops_int r"
        using False hq Cons unfolding r stops_int_def
        by (auto simp: takeWhile_digit_Nil split: list.splits)
      with c ds dsn show ?thesis
        by (simp add: number_token_def)
    qed
  qed
qed

lemma number_token_hd: "number_token tok rest \<Longrightarrow> tok \<noteq> [] \<and> is_numch (hd tok)"
  by (auto simp: number_token_def)

lemma match_tail_token:
  assumes "\<forall>x \<in> set seps. is_sep x" and "number_token tok rest"
  shows "match_tail (seps @ tok @ rest) = Some (tok, rest)"
proof -
  from assms(2) obtain d tl where tok: "tok = d # tl" and d: "is_numch d"
    using number_token_hd [of tok rest] by (cases tok) auto
  have "dropWhile is_sep (seps @ tok @ rest) = tok @ rest"
    using assms(1) d tok by (simp add: dropWhile_append2 numch_not_sep)
  with assms(2) show ?thesis
    by (simp add: match_tail_def match_number_token)
qed

text \<open>No label of a pattern is a prefix of another label of the same pattern.\<close>

definition prefix_free :: "string list \<Rightarrow> bool" where
  "prefix_free as \<longleftrightarrow> (\<forall>a \<in> set as. \<forall>b \<in> set as. prefix a b \<longrightarrow> a = b)"

lemma match_alts_token:
  assumes "prefix_free as" and "a \<in> set as" and "\<forall>x \<in> set seps. is_sep x"
    and "number_token tok rest"
  shows "match_alts as (a @ seps @ tok @ rest) = Some (tok, rest)"
  using assms(1,2)
proof (induction as)
  case Nil
  then show ?case by simp
next
  case (Cons b as)
  let ?s = "a @ seps @ tok @ rest"
  show ?case
  proof (cases "b = a")
    case True
    have "strip_prefix a ?s = Some (seps @ tok @ rest)"
      by (simp add: strip_prefix_Some)
    with True show ?thesis
      using match_tail_token [OF assms(3,4)] by simp
  next
    case False
    with Cons.prems have a: "a \<in> set as" by simp
    have pf: "prefix_free as"
      using Cons.prems(1) by (simp add: prefix_free_def)
    have "strip_prefix b ?s = None"
    proof (cases "strip_prefix b ?s")
      case (Some q)
      then have "prefix b ?s" by (simp add: strip_prefix_Some)
      moreover have "prefix a ?s" by simp
      ultimately have "prefix a b \<or> prefix b a"
        using prefix_same_cases by blast
      with Cons.prems False have False
        by (auto simp: prefix_free_def)
      then show ?thesis ..
    qed
    then show ?thesis
      using Cons.IH [OF pf a] by simp
  qed
qed

lemma patterns_prefix_free: "(m, as) \<in> set patterns \<Longrightarrow> prefix_free as"
  by (auto simp: patterns_def prefix_free_def)

section \<open>What the extraction stores\<close>

text \<open>
  \<open>stored_value m\<close> is what the loop body stores for a first match \<open>m\<close>: the float of
  \<open>m\<close> without its commas, or that string itself when \<open>float\<close> raises \<open>ValueError\<close>.
\<close>

definition stored_value :: "string \<Rightarrow> metric_value" where
  "stored_value m =
     (let v = replace_commas m
      in case py_float v of Some f \<Rightarrow> Float f | None \<Rightarrow> Str v)"

lemma metric_step_lookup:
  "map_of (metric_step text p metrics) k =
     (if k = fst p
      then (case findall (snd p) (lower text) of
              [] \<Rightarrow> map_of metrics k
            | c # cs \<Rightarrow> Some (stored_value c))
      else map_of metrics k)"
  by (simp add: metric_step_def stored_value_def Let_def update_conv'
      split: list.splits option.splits)

lemma fold_metric_step_lookup:
  "distinct (map fst ps) \<Longrightarrow>
   map_of (foldl (\<lambda>metrics p. metric_step text p metrics) acc ps) k =
     (case map_of ps k of
        None \<Rightarrow> map_of acc k
      | Some as \<Rightarrow>
          (case findall as (lower text) of
             [] \<Rightarrow> map_of acc k
           | c # cs \<Rightarrow> Some (stored_value c)))"
proof (induction ps arbitrary: acc)
  case Nil
  show ?case by simp
next
  case (Cons p ps)
  obtain n as where p: "p = (n, as)" by (cases p)
  from Cons.prems have d: "distinct (map fst ps)" and n: "n \<notin> fst ` set ps"
    by (simp_all add: p)
  from n have nk: "map_of ps n = None"
    by (simp add: map_of_eq_None_iff)
  show ?case
  proof (cases "k = n")
    case True
    then show ?thesis
      using Cons.IH [OF d, of "metric_step text p acc"] nk
      by (simp add: p metric_step_lookup split: list.splits)
  next
    case False
    then show ?thesis
      using Cons.IH [OF d, of "metric_step text p acc"]
      by (simp add: p metric_step_lookup split: option.splits list.splits)
  qed
qed

lemma distinct_patterns: "distinct (map fst patterns)"
  by (simp add: patterns_def)

lemma extract_lookup:
  "map_of (extract_financial_metrics text) k =
     (case map_of patterns k of
        None \<Rightarrow> None
      | Some as \<Rightarrow>
          (case findall as (lower text) of [] \<Rightarrow> None | c # cs \<Rightarrow> Some (stored_value c)))"
  unfolding extract_financial_metrics_def
  by (simp add: fold_metric_step_lookup [OF distinct_patterns] split: option.splits list.splits)

lemma patterns_lookup: "(m, as) \<in> set patterns \<Longrightarrow> map_of patterns m = Some as"
  using distinct_patterns by (rule map_of_is_SomeI)

lemma extract_first_occurrence:
  assumes "(m, as) \<in> set patterns" and "a \<in> set as"
    and "lower text = pre @ a @ seps @ tok @ rest"
    and "\<forall>x \<in> set seps. is_sep x"
    and "number_token tok rest"
    and "\<forall>j<length pre. \<not> occurs_at as (lower text) j"
  shows "findall as (lower text) = tok # findall as rest"
proof -
  have pf: "prefix_free as" using assms(1) by (rule patterns_prefix_free)
  have "drop (length pre) (lower text) = a @ seps @ tok @ rest"
    using assms(3) by simp
  then have "match_alts as (drop (length pre) (lower text)) = Some (tok, rest)"
    using match_alts_token [OF pf assms(2,4,5)] by simp
  moreover have "\<forall>j<length pre. match_alts as (drop j (lower text)) = None"
    using assms(6) unfolding occurs_at_iff by blast
  ultimately show ?thesis
    by (rule findall_first [rotated])
qed

lemma digit_not_comma: "is_digit x \<Longrightarrow> x \<noteq> CHR '',''"
  by (auto simp: is_digit_def)

lemma point_not_digit: "\<not> is_digit (CHR ''.'')"
  by (simp add: is_digit_def)

lemma replace_commas_numch: "\<forall>x \<in> set ip. is_numch x \<Longrightarrow> \<forall>x \<in> set (replace_commas ip). is_digit x"
  by (auto simp: replace_commas_def is_numch_def)

lemma replace_commas_digits: "\<forall>x \<in> set fs. is_digit x \<Longrightarrow> replace_commas fs = fs"
  unfolding replace_commas_def by (rule filter_True) (auto dest: digit_not_comma)

lemma replace_commas_append: "replace_commas (xs @ ys) = replace_commas xs @ replace_commas ys"
  by (simp add: replace_commas_def)

lemma replace_commas_point: "replace_commas (CHR ''.'' # ys) = CHR ''.'' # replace_commas ys"
  by (simp add: replace_commas_def)

lemma replace_commas_Nil_iff: "replace_commas c = [] \<longleftrightarrow> (\<forall>x \<in> set c. x = CHR '','')"
  by (auto simp: replace_commas_def filter_empty_conv)

lemma py_float_int:
  assumes "v \<noteq> []" and "\<forall>x \<in> set v. is_digit x"
  shows "py_float v = Some (of_nat (digits_val v))"
proof -
  have t: "takeWhile is_digit v = v" and d: "dropWhile is_digit v = []"
    using assms(2) by simp_all
  show ?thesis
    unfolding py_float_def Let_def t d using assms(1) by simp
qed

lemma py_float_dec:
  assumes "\<forall>x \<in> set v. is_digit x" and "fs \<noteq> []" and "\<forall>x \<in> set fs. is_digit x"
  shows "py_float (v @ CHR ''.'' # fs) =
           Some (of_nat (digits_val v) + of_nat (digits_val fs) / 10 ^ length fs)"
proof -
  have "case CHR ''.'' # fs of [] \<Rightarrow> True | y # r \<Rightarrow> \<not> is_digit y"
    by (simp add: point_not_digit)
  with assms(1) have "takeWhile is_digit (v @ CHR ''.'' # fs) = v \<and>
      dropWhile is_digit (v @ CHR ''.'' # fs) = CHR ''.'' # fs"
    by (rule takeWhile_stop)
  then have t: "takeWhile is_digit (v @ CHR ''.'' # fs) = v"
    and d: "dropWhile is_digit (v @ CHR ''.'' # fs) = CHR ''.'' # fs"
    by blast+
  show ?thesis
    unfolding py_float_def Let_def t d using assms(2,3)
    by (simp add: list_all_iff)
qed

lemma findall_hd_match:
  "findall as s = c # cs \<Longrightarrow> \<exists>i r. match_alts as (drop i s) = Some (c, r)"
proof (induction s)
  case Nil
  then show ?case by (simp add: findall_Nil)
next
  case (Cons x s)
  show ?case
  proof (cases "match_alts as (x # s)")
    case None
    with Cons.prems have "findall as s = c # cs" by (simp add: findall_Cons)
    then obtain i r where "match_alts as (drop i s) = Some (c, r)"
      using Cons.IH by blast
    then have "match_alts as (drop (Suc i) (x # s)) = Some (c, r)" by simp
    then show ?thesis by blast
  next
    case (Some m)
    obtain c' r' where m: "m = (c', r')" by (cases m)
    with Some Cons.prems have "c' = c" by (simp add: findall_Cons)
    with Some m have "match_alts as (drop 0 (x # s)) = Some (c, r')" by simp
    then show ?thesis by blast
  qed
qed

lemma match_alts_tail: "match_alts as s = Some (c, r) \<Longrightarrow> \<exists>q. match_tail q = Some (c, r)"
  by (induction as) (auto split: option.splits)

lemma findall_hd_token: "findall as s = c # cs \<Longrightarrow> \<exists>r. number_token c r"
proof -
  assume "findall as s = c # cs"
  then obtain i r where "match_alts as (drop i s) = Some (c, r)"
    using findall_hd_match by blast
  then obtain q where "match_tail q = Some (c, r)"
    using match_alts_tail by blast
  then have "number_token c r"
    unfolding match_tail_def by (rule match_number_sound)
  then show ?thesis ..
qed

lemma token_unparsable:
  assumes "number_token c r" and "py_float (replace_commas c) = None"
  shows "replace_commas c = [] \<and> set c = {CHR '',''}"
  using assms(1) unfolding number_token_def
proof (elim disjE exE conjE)
  assume c: "c \<noteq> []" "\<forall>x \<in> set c. is_numch x"
  then have "\<forall>x \<in> set (replace_commas c). is_digit x"
    by (simp add: replace_commas_numch)
  with assms(2) have e: "replace_commas c = []"
    using py_float_int [of "replace_commas c"] by auto
  then have "\<forall>x \<in> set c. x = CHR '',''"
    by (simp add: replace_commas_Nil_iff)
  with c(1) have "set c = {CHR '',''}"
    by (cases c) auto
  with e show ?thesis by simp
next
  fix ds fs
  assume c: "c = ds @ CHR ''.'' # fs" and ds: "\<forall>x \<in> set ds. is_numch x"
    and fs: "fs \<noteq> []" "\<forall>x \<in> set fs. is_digit x"
  have "replace_commas c = replace_commas ds @ CHR ''.'' # fs"
    using fs(2) by (simp add: c replace_commas_append replace_commas_point replace_commas_digits)
  moreover have "\<forall>x \<in> set (replace_commas ds). is_digit x"
    using ds by (rule replace_commas_numch)
  ultimately have "py_float (replace_commas c) \<noteq> None"
    using py_float_dec [of "replace_commas ds" fs] fs by simp
  with assms(2) show ?thesis by simp
qed

text \<open>
  The number denoted by an integer part \<open>ip\<close> written with digits and commas and a
  fractional part \<open>fs\<close> of digits (empty when there is none).
\<close>

definition decimal_value :: "string \<Rightarrow> string \<Rightarrow> rat" where
  "decimal_value ip fs =
     of_nat (digits_val (replace_commas ip)) + of_nat (digits_val fs) / 10 ^ length fs"

lemma stored_value_number:
  assumes "\<forall>x \<in> set ip. is_numch x" and "\<exists>x \<in> set ip. is_digit x" and "\<forall>x \<in> set fs. is_digit x"
  shows "stored_value (if fs = [] then ip else ip @ CHR ''.'' # fs) = Float (decimal_value ip fs)"
proof -
  have d: "\<forall>x \<in> set (replace_commas ip). is_digit x"
    using assms(1) by (rule replace_commas_numch)
  have n: "replace_commas ip \<noteq> []"
    using assms(2) by (auto simp: replace_commas_Nil_iff dest: digit_not_comma)
  show ?thesis
  proof (cases "fs = []")
    case True
    then show ?thesis
      using py_float_int [OF n d]
      by (simp add: stored_value_def decimal_value_def digits_val_def)
  next
    case False
    have "replace_commas (ip @ CHR ''.'' # fs) = replace_commas ip @ CHR ''.'' # fs"
      using assms(3) by (simp add: replace_commas_append replace_commas_point replace_commas_digits)
    then show ?thesis
      using False py_float_dec [OF d False assms(3)]
      by (simp add: stored_value_def decimal_value_def)
  qed
qed

lemma number_tokenI:
  assumes "\<forall>x \<in> set ip. is_numch x" and "\<exists>x \<in> set ip. is_digit x" and "\<forall>x \<in> set fs. is_digit x"
    and "if fs = [] then stops_int rest else stops_frac rest"
  shows "number_token (if fs = [] then ip else ip @ CHR ''.'' # fs) rest"
proof -
  from assms(2) have "ip \<noteq> []" by auto
  with assms show ?thesis
    unfolding number_token_def by (cases "fs = []") auto
qed

text \<open>The equations that evaluate the extraction on a given text.\<close>

lemmas eval_simps =
  findall_Nil findall_Cons match_tail_def match_number_def is_sep_def is_space_def
  is_digit_def is_numch_def lower_def lower_char_def char_of_def bit_Suc_0_iff
  extract_financial_metrics_def patterns_def metric_step_def py_float_def digits_val_def
  replace_commas_def

lemma no_occurrenceI: "findall as s = [] \<Longrightarrow> \<forall>i. \<not> occurs_at as s i"
  by (simp add: findall_empty_iff occurs_at_iff)

section \<open>Claims about the metric extraction\<close>

text \<open>
  C1, as stated, fails. For the text \<open>Net income was $45,000 and total assets of 2,000,000\<close>
  the claim promises \<open>profit = 45000.0\<close> and \<open>assets = 2000000.0\<close>; the extraction stores
  neither, because the words \<open>was\<close> and \<open>of\<close> stand between each label and its figure
  and the pattern lets only white space, colons and dollar signs stand there.
\<close>

theorem scenario_net_income_counterexample:
  "\<not> (map_of (extract_financial_metrics ''Net income was $45,000 and total assets of 2,000,000'')
          ''profit'' = Some (Float 45000)
      \<and> map_of (extract_financial_metrics ''Net income was $45,000 and total assets of 2,000,000'')
          ''assets'' = Some (Float 2000000))"
  by (simp add: eval_simps)

text \<open>
  C1, amended: for the text \<open>Net income was $45,000 and total assets of 2,000,000\<close> the
  extraction yields the empty mapping, so \<open>expenses\<close>, \<open>revenue\<close>, \<open>liabilities\<close> and
  \<open>equity\<close> are absent, and so are \<open>profit\<close> and \<open>assets\<close>.
\<close>

theorem scenario_net_income_empty:
  "extract_financial_metrics ''Net income was $45,000 and total assets of 2,000,000'' = []"
  by (simp add: eval_simps)

text \<open>
  C7: for every text and every metric of the pattern set, if nowhere in the lower-cased
  text a label of the metric is followed (after any white space, colons and dollar signs)
  by the start of a numeric token, the metric's key is absent from the result: looking
  it up gives nothing, and it is not among the keys, with no zero or null standing in.
\<close>

theorem absent_when_no_occurrence:
  assumes "(m, as) \<in> set patterns" and "\<forall>i. \<not> occurs_at as (lower text) i"
  shows "map_of (extract_financial_metrics text) m = None \<and>
         m \<notin> fst ` set (extract_financial_metrics text)"
proof -
  from assms(2) have "findall as (lower text) = []"
    unfolding findall_empty_iff occurs_at_iff by blast
  with assms(1) have "map_of (extract_financial_metrics text) m = None"
    by (simp add: extract_lookup patterns_lookup)
  then show ?thesis
    by (simp add: map_of_eq_None_iff)
qed

text \<open>
  C7 at the text of the scenario above and the metric \<open>profit\<close>: no label of \<open>profit\<close>
  is followed by a figure there, and the key is absent.
\<close>

theorem absent_when_no_occurrence_witness:
  "((''profit'', [''profit'', ''net income'', ''earnings'']) \<in> set patterns
     \<and> (\<forall>i. \<not> occurs_at [''profit'', ''net income'', ''earnings'']
           (lower ''Net income was $45,000 and total assets of 2,000,000'') i))
   \<and> map_of (extract_financial_metrics ''Net income was $45,000 and total assets of 2,000,000'')
        ''profit'' = None
   \<and> ''profit'' \<notin> fst ` set (extract_financial_metrics
        ''Net income was $45,000 and total assets of 2,000,000'')"
proof -
  have p: "(''profit'', [''profit'', ''net income'', ''earnings'']) \<in> set patterns"
    by (simp add: patterns_def)
  have "findall [''profit'', ''net income'', ''earnings'']
          (lower ''Net income was $45,000 and total assets of 2,000,000'') = []"
    by (simp add: eval_simps)
  then have n: "\<forall>i. \<not> occurs_at [''profit'', ''net income'', ''earnings'']
           (lower ''Net income was $45,000 and total assets of 2,000,000'') i"
    by (rule no_occurrenceI)
  show ?thesis
    using absent_when_no_occurrence [OF p n] p n by blast
qed

text \<open>
  C5: when the lower-cased text holds, at its leftmost occurrence of a label of the
  metric with a figure, the numeric token \<open>tok\<close>, the extracted value of the metric is the
  value of \<open>tok\<close>, whatever follows: later occurrences of the label with other figures,
  which lie in \<open>rest\<close>, change nothing, and nothing is aggregated.
\<close>

theorem first_occurrence_wins:
  assumes "(m, as) \<in> set patterns" and "a \<in> set as"
    and "lower text = pre @ a @ seps @ tok @ rest"
    and "list_all is_sep seps"
    and "number_token tok rest"
    and "\<forall>j<length pre. \<not> occurs_at as (lower text) j"
  shows "map_of (extract_financial_metrics text) m = Some (stored_value tok)"
proof -
  have "\<forall>x \<in> set seps. is_sep x"
    using assms(4) by (simp add: list_all_iff)
  then have "findall as (lower text) = tok # findall as rest"
    by (rule extract_first_occurrence [OF assms(1,2,3) _ assms(5,6)])
  with assms(1) show ?thesis
    by (simp add: extract_lookup patterns_lookup)
qed

text \<open>
  C5 at the text \<open>revenue: 100 ... revenue: 200\<close>: the label occurs with a figure at
  positions 0 and 17, and the extracted revenue is 100.
\<close>

theorem first_occurrence_wins_witness:
  "((''revenue'', [''revenue'', ''sales'', ''income'']) \<in> set patterns
     \<and> ''revenue'' \<in> set [''revenue'', ''sales'', ''income'']
     \<and> lower ''revenue: 100 ... revenue: 200''
           = [] @ ''revenue'' @ '': '' @ ''100'' @ '' ... revenue: 200''
     \<and> list_all is_sep '': ''
     \<and> number_token ''100'' '' ... revenue: 200''
     \<and> \<not> (\<exists>j<length ([] :: string).
           occurs_at [''revenue'', ''sales'', ''income''] (lower ''revenue: 100 ... revenue: 200'') j))
   \<and> occurs_at [''revenue'', ''sales'', ''income''] (lower ''revenue: 100 ... revenue: 200'') 17
   \<and> map_of (extract_financial_metrics ''revenue: 100 ... revenue: 200'') ''revenue''
        = Some (Float 100)"
proof -
  have p: "(''revenue'', [''revenue'', ''sales'', ''income'']) \<in> set patterns"
    by (simp add: patterns_def)
  have a: "''revenue'' \<in> set [''revenue'', ''sales'', ''income'']" by simp
  have l: "lower ''revenue: 100 ... revenue: 200''
             = [] @ ''revenue'' @ '': '' @ ''100'' @ '' ... revenue: 200''"
    by (simp add: eval_simps)
  have s: "list_all is_sep '': ''"
    by (simp add: is_sep_def is_space_def)
  have t: "number_token ''100'' '' ... revenue: 200''"
    by (simp add: number_token_def stops_int_def is_numch_def is_digit_def)
  have n: "\<forall>j<length ([] :: string).
      \<not> occurs_at [''revenue'', ''sales'', ''income''] (lower ''revenue: 100 ... revenue: 200'') j"
    by simp
  have o: "occurs_at [''revenue'', ''sales'', ''income''] (lower ''revenue: 100 ... revenue: 200'') 17"
    unfolding occurs_at_iff by (simp add: eval_simps)
  have v: "stored_value ''100'' = Float 100"
    by (simp add: stored_value_def eval_simps)
  show ?thesis
    using first_occurrence_wins [OF p a l s t n] p a l s t o v by simp
qed

text \<open>
  C4, as stated, fails. In the text \<open>Revenue: ,\<close> the label is matched and the captured
  token is the single comma; it does not parse, and what is stored is the token with its
  commas removed, the empty string, not the captured string.
\<close>

theorem unparsable_token_counterexample:
  "findall [''revenue'', ''sales'', ''income''] (lower ''Revenue: ,'') = ['','']
   \<and> py_float (replace_commas '','') = None
   \<and> map_of (extract_financial_metrics ''Revenue: ,'') ''revenue'' = Some (Str [])
   \<and> map_of (extract_financial_metrics ''Revenue: ,'') ''revenue'' \<noteq> Some (Str '','')"
  by (simp add: eval_simps)

text \<open>
  C4, amended: when a label of the metric is matched and the first captured token,
  with its commas removed, does not parse as a number, that comma-free string is stored
  as the metric's value: the metric is not discarded, and nothing is raised. This
  happens exactly for a token made of commas only, so the stored string is empty; a token
  with a letter, such as \<open>12,34a\<close>, is never captured.
\<close>

theorem unparsable_token_stored_stripped:
  assumes "(m, as) \<in> set patterns" and "findall as (lower text) = c # cs"
    and "py_float (replace_commas c) = None"
  shows "map_of (extract_financial_metrics text) m = Some (Str (replace_commas c))
         \<and> replace_commas c = [] \<and> set c = {CHR '',''}"
proof -
  from assms(2) obtain r where "number_token c r"
    using findall_hd_token by blast
  then have "replace_commas c = [] \<and> set c = {CHR '',''}"
    using assms(3) by (rule token_unparsable)
  moreover have "map_of (extract_financial_metrics text) m = Some (Str (replace_commas c))"
    using assms by (simp add: extract_lookup patterns_lookup stored_value_def)
  ultimately show ?thesis by simp
qed

text \<open>
  C4, amended, at the text \<open>Costs: ,, (see note 4), costs 12\<close>: the first token of
  \<open>expenses\<close> is two commas, and the empty string is stored.
\<close>

theorem unparsable_token_stored_stripped_witness:
  "((''expenses'', [''expenses'', ''costs'']) \<in> set patterns
     \<and> findall [''expenses'', ''costs''] (lower ''Costs: ,, (see note 4), costs 12'') = ['',,'', ''12'']
     \<and> py_float (replace_commas '',,'') = None)
   \<and> map_of (extract_financial_metrics ''Costs: ,, (see note 4), costs 12'') ''expenses''
        = Some (Str (replace_commas '',,''))
   \<and> replace_commas '',,'' = [] \<and> set '',,'' = {CHR '',''}"
proof -
  have p: "(''expenses'', [''expenses'', ''costs'']) \<in> set patterns"
    by (simp add: patterns_def)
  have f: "findall [''expenses'', ''costs''] (lower ''Costs: ,, (see note 4), costs 12'')
             = ['',,'', ''12'']"
    by (simp add: eval_simps)
  have n: "py_float (replace_commas '',,'') = None"
    by (simp add: eval_simps)
  show ?thesis
    using unparsable_token_stored_stripped [OF p f n] p f n by blast
qed

text \<open>
  An executable check that no match of the pattern starts inside the prefix \<open>pre\<close> of
  \<open>pre @ rest\<close>.
\<close>

fun no_match_in :: "string list \<Rightarrow> string \<Rightarrow> string \<Rightarrow> bool" where
  "no_match_in as [] rest = True"
| "no_match_in as (x # pre) rest = (match_alts as (x # pre @ rest) = None \<and> no_match_in as pre rest)"

lemma no_match_in_sound:
  "no_match_in as pre rest \<Longrightarrow> \<forall>j<length pre. \<not> occurs_at as (pre @ rest) j"
proof (induction pre)
  case Nil
  show ?case by simp
next
  case (Cons x pre)
  then have h: "match_alts as (x # pre @ rest) = None"
    and ih: "\<forall>j<length pre. \<not> occurs_at as (pre @ rest) j"
    by simp_all
  show ?case
  proof (intro allI impI)
    fix j assume j: "j < length (x # pre)"
    show "\<not> occurs_at as ((x # pre) @ rest) j"
    proof (cases j)
      case 0
      with h show ?thesis by (simp add: occurs_at_iff)
    next
      case (Suc k)
      with j ih have "\<not> occurs_at as (pre @ rest) k" by simp
      with Suc show ?thesis by (simp add: occurs_at_iff)
    qed
  qed
qed

text \<open>
  C6, as stated, fails. The text \<open>Revenue: 5 Total Revenue: $1,234,567.89\<close> contains the
  label \<open>revenue\<close> followed by \<open>: $\<close> and the number \<open>1,234,567.89\<close> (at position 17),
  yet the extracted revenue is 5, the figure of the earlier occurrence.
\<close>

theorem number_with_separators_counterexample:
  "occurs_at [''revenue'', ''sales'', ''income'']
     (lower ''Revenue: 5 Total Revenue: $1,234,567.89'') 17
   \<and> drop 17 (lower ''Revenue: 5 Total Revenue: $1,234,567.89'') = ''revenue: $1,234,567.89''
   \<and> map_of (extract_financial_metrics ''Revenue: 5 Total Revenue: $1,234,567.89'') ''revenue''
        = Some (Float 5)
   \<and> map_of (extract_financial_metrics ''Revenue: 5 Total Revenue: $1,234,567.89'') ''revenue''
        \<noteq> Some (Float (123456789 / 100))"
  unfolding occurs_at_iff by (simp add: eval_simps)


text \<open>
  C6, amended: when the leftmost occurrence of a label of the metric with a figure, in
  the lower-cased text, is followed (after any white space, colons and dollar signs) by a
  number written with digits and commas, at least one digit, and optionally a point and
  digits, and the text does not continue that number, the extracted value is the float of
  the number with its commas removed.
\<close>

theorem number_with_separators_value:
  assumes "(m, as) \<in> set patterns" and "a \<in> set as"
    and "lower text = pre @ a @ seps @ tok @ rest"
    and "list_all is_sep seps"
    and "tok = (if fs = [] then ip else ip @ CHR ''.'' # fs)"
    and "list_all is_numch ip" and "list_ex is_digit ip" and "list_all is_digit fs"
    and "if fs = [] then stops_int rest else stops_frac rest"
    and "\<forall>j<length pre. \<not> occurs_at as (lower text) j"
  shows "map_of (extract_financial_metrics text) m = Some (Float (decimal_value ip fs))"
proof -
  have ip: "\<forall>x \<in> set ip. is_numch x" "\<exists>x \<in> set ip. is_digit x" and fs: "\<forall>x \<in> set fs. is_digit x"
    using assms(6,7,8) by (simp_all add: list_all_iff list_ex_iff)
  have seps: "\<forall>x \<in> set seps. is_sep x"
    using assms(4) by (simp add: list_all_iff)
  have "number_token tok rest"
    unfolding assms(5) using ip fs assms(9) by (rule number_tokenI)
  then have "findall as (lower text) = tok # findall as rest"
    by (rule extract_first_occurrence [OF assms(1,2,3) seps _ assms(10)])
  moreover have "stored_value tok = Float (decimal_value ip fs)"
    unfolding assms(5) using ip fs by (rule stored_value_number)
  ultimately show ?thesis
    using assms(1) by (simp add: extract_lookup patterns_lookup)
qed


text \<open>
  C6, amended, at the text \<open>Total Revenue: $1,234,567.89\<close>: the extracted revenue is
  \<open>1234567.89\<close>.
\<close>

theorem number_with_separators_value_witness:
  "((''revenue'', [''revenue'', ''sales'', ''income'']) \<in> set patterns
     \<and> ''revenue'' \<in> set [''revenue'', ''sales'', ''income'']
     \<and> lower ''Total Revenue: $1,234,567.89''
          = ''total '' @ ''revenue'' @ '': $'' @ ''1,234,567.89'' @ []
     \<and> list_all is_sep '': $''
     \<and> ''1,234,567.89'' = (if ''89'' = [] then ''1,234,567'' else ''1,234,567'' @ CHR ''.'' # ''89'')
     \<and> list_all is_numch ''1,234,567'' \<and> list_ex is_digit ''1,234,567'' \<and> list_all is_digit ''89''
     \<and> (if ''89'' = [] then stops_int [] else stops_frac [])
     \<and> \<not> (\<exists>j<length ''total ''. occurs_at [''revenue'', ''sales'', ''income'']
              (lower ''Total Revenue: $1,234,567.89'') j))
   \<and> map_of (extract_financial_metrics ''Total Revenue: $1,234,567.89'') ''revenue''
        = Some (Float (123456789 / 100))"
proof -
  have p: "(''revenue'', [''revenue'', ''sales'', ''income'']) \<in> set patterns"
    by (simp add: patterns_def)
  have a: "''revenue'' \<in> set [''revenue'', ''sales'', ''income'']" by simp
  have l: "lower ''Total Revenue: $1,234,567.89''
          = ''total '' @ ''revenue'' @ '': $'' @ ''1,234,567.89'' @ []"
    by (simp add: eval_simps)
  have s: "list_all is_sep '': $''"
    by (simp add: is_sep_def is_space_def)
  have t: "''1,234,567.89'' = (if ''89'' = [] then ''1,234,567'' else ''1,234,567'' @ CHR ''.'' # ''89'')"
    by simp
  have i: "list_all is_numch ''1,234,567''" and d: "list_ex is_digit ''1,234,567''"
    and f: "list_all is_digit ''89''"
    by (simp_all add: is_numch_def is_digit_def)
  have r: "if ''89'' = [] then stops_int [] else stops_frac []"
    by (simp add: stops_frac_def)
  have "no_match_in [''revenue'', ''sales'', ''income''] ''total '' ''revenue: $1,234,567.89''"
    by (simp add: eval_simps)
  then have "\<forall>j<length ''total ''. \<not> occurs_at [''revenue'', ''sales'', ''income'']
              (''total '' @ ''revenue: $1,234,567.89'') j"
    by (rule no_match_in_sound)
  moreover have "lower ''Total Revenue: $1,234,567.89'' = ''total '' @ ''revenue: $1,234,567.89''"
    by (simp add: eval_simps)
  ultimately have n: "\<forall>j<length ''total ''. \<not> occurs_at [''revenue'', ''sales'', ''income'']
              (lower ''Total Revenue: $1,234,567.89'') j"
    by (simp only:)
  have v: "decimal_value ''1,234,567'' ''89'' = 123456789 / 100"
    by (simp add: decimal_value_def eval_simps)
  have "map_of (extract_financial_metrics ''Total Revenue: $1,234,567.89'') ''revenue''
        = Some (Float (decimal_value ''1,234,567'' ''89''))"
    by (rule number_with_separators_value [OF p a l s t i d f r n])
  then have c: "map_of (extract_financial_metrics ''Total Revenue: $1,234,567.89'') ''revenue''
        = Some (Float (123456789 / 100))"
    by (simp only: v)
  from p a l s t i d f r n c show ?thesis by blast
qed

section \<open>Exceptions and the user interface\<close>

text \<open>
  The exceptions the program meets, each with the text that \<open>str(e)\<close> gives. The first
  three are those of the \<open>requests\<close> library that the handlers of \<open>generate_response\<close>
  tell apart: \<open>ConnectionError\<close> (a refused connection is one), \<open>ConnectTimeout\<close>, which
  the library declares a subclass of both \<open>ConnectionError\<close> and \<open>Timeout\<close>, and
  \<open>ReadTimeout\<close>, a subclass of \<open>Timeout\<close> only. \<open>Exception\<close> is any other exception.
  \<open>is_ConnectionError e\<close> is \<open>isinstance(e, requests.exceptions.ConnectionError)\<close>.
  The outcome of a call that may raise is a value of \<open>exn + 'a\<close>, \<open>Inl\<close> when it raises.
\<close>

datatype exn =
    ConnectionError string
  | ConnectTimeout string
  | ReadTimeout string
  | Exception string

fun str_exn :: "exn \<Rightarrow> string" where
  "str_exn (ConnectionError m) = m"
| "str_exn (ConnectTimeout m) = m"
| "str_exn (ReadTimeout m) = m"
| "str_exn (Exception m) = m"

fun is_ConnectionError :: "exn \<Rightarrow> bool" where
  "is_ConnectionError (ConnectionError m) = True"
| "is_ConnectionError (ConnectTimeout m) = True"
| "is_ConnectionError (ReadTimeout m) = False"
| "is_ConnectionError (Exception m) = False"

text \<open>
  The user interface is the list of the messages shown by \<open>st.error\<close>, oldest first.
\<close>

type_synonym ui = "string list"

definition st_error :: "string \<Rightarrow> ui \<Rightarrow> ui" where
  "st_error msg ui = ui @ [msg]"

section \<open>The uploaded file\<close>

text \<open>
  The libraries that read the file are outside the program, so an uploaded file is given
  by what they make of it. \<open>pdf_reader\<close> is the outcome of \<open>PyPDF2.PdfReader(file)\<close>:
  it raises, or gives the pages, each page by the outcome of its \<open>extract_text()\<close>.
  \<open>read_excel\<close> is the outcome of \<open>pd.read_excel(file, sheet_name=None)\<close>: it raises, or
  gives the sheets in workbook order, each with its name and its data frame. Of a data
  frame the program uses the outcome of \<open>df.to_string()\<close>.
\<close>

datatype dataframe = DataFrame (to_string: "exn + string")

record uploaded_file =
  pdf_reader :: "exn + (exn + string) list"
  read_excel :: "exn + (string \<times> dataframe) list"

text \<open>
  The entry of a sheet in \<open>processed_data\<close>, with its keys \<open>'dataframe'\<close> and \<open>'text'\<close>;
  the dictionary \<open>extracted_data\<close> with its keys \<open>'excel_sheets'\<close>, \<open>'metrics'\<close> and
  \<open>'raw_text'\<close>, a key that is not set being \<open>None\<close>; and the fields of a
  \<open>DocumentProcessor\<close>, which \<open>__init__\<close> sets to the empty dictionary and the empty
  string.
\<close>

record sheet_data =
  sheet_dataframe :: dataframe
  sheet_text :: string

record extracted_data =
  key_excel_sheets :: "(string \<times> sheet_data) list option"
  key_metrics :: "(string \<times> metric_value) list option"
  key_raw_text :: "string option"

record document_processor =
  extracted_data :: extracted_data
  raw_text :: string

definition init_processor :: document_processor where
  "init_processor =
     \<lparr>extracted_data = \<lparr>key_excel_sheets = None, key_metrics = None, key_raw_text = None\<rparr>,
      raw_text = []\<rparr>"

section \<open>DocumentProcessor.extract_pdf_text\<close>

text \<open>
  \<open>pdf_pages_loop\<close> is the loop over \<open>pdf_reader.pages\<close>, which adds each page's text
  and a newline to \<open>text\<close> and stops at the first page that raises. \<open>read_pdf\<close> is the
  body of the \<open>try\<close>, and \<open>extract_pdf_text\<close> adds the handler: on any exception it shows
  the message and returns the empty string.
\<close>

fun pdf_pages_loop :: "(exn + string) list \<Rightarrow> string \<Rightarrow> exn + string" where
  "pdf_pages_loop [] text = Inr text"
| "pdf_pages_loop (page # pages) text =
     (case page of
        Inl e \<Rightarrow> Inl e
      | Inr page_text \<Rightarrow> pdf_pages_loop pages (text @ page_text @ [CHR 0x0A]))"

definition read_pdf :: "uploaded_file \<Rightarrow> exn + string" where
  "read_pdf pdf_file =
     (case pdf_reader pdf_file of
        Inl e \<Rightarrow> Inl e
      | Inr pages \<Rightarrow> pdf_pages_loop pages [])"

definition extract_pdf_text :: "uploaded_file \<Rightarrow> ui \<Rightarrow> (exn + string) \<times> ui" where
  "extract_pdf_text pdf_file ui =
     (case read_pdf pdf_file of
        Inr text \<Rightarrow> (Inr text, ui)
      | Inl e \<Rightarrow> (Inr [], st_error (''Error reading PDF: '' @ str_exn e) ui))"

section \<open>DocumentProcessor.extract_excel_data\<close>

text \<open>
  \<open>excel_sheets_loop\<close> is the loop over \<open>excel_data.items()\<close>, which stores each sheet's
  data frame and rendering under the sheet's name. \<open>read_workbook\<close> is the body of the
  \<open>try\<close>, and \<open>extract_excel_data\<close> adds the handler: on any exception it shows the
  message and returns the empty dictionary.
\<close>

fun excel_sheets_loop ::
  "(string \<times> dataframe) list \<Rightarrow> (string \<times> sheet_data) list
     \<Rightarrow> exn + (string \<times> sheet_data) list" where
  "excel_sheets_loop [] processed_data = Inr processed_data"
| "excel_sheets_loop ((sheet_name, df) # excel_data) processed_data =
     (case to_string df of
        Inl e \<Rightarrow> Inl e
      | Inr text_data \<Rightarrow>
          excel_sheets_loop excel_data
            (AList.update sheet_name \<lparr>sheet_dataframe = df, sheet_text = text_data\<rparr>
               processed_data))"

definition read_workbook :: "uploaded_file \<Rightarrow> exn + (string \<times> sheet_data) list" where
  "read_workbook excel_file =
     (case read_excel excel_file of
        Inl e \<Rightarrow> Inl e
      | Inr excel_data \<Rightarrow> excel_sheets_loop excel_data [])"

definition extract_excel_data ::
  "uploaded_file \<Rightarrow> ui \<Rightarrow> (exn + (string \<times> sheet_data) list) \<times> ui" where
  "extract_excel_data excel_file ui =
     (case read_workbook excel_file of
        Inr processed_data \<Rightarrow> (Inr processed_data, ui)
      | Inl e \<Rightarrow> (Inr [], st_error (''Error reading Excel file: '' @ str_exn e) ui))"

section \<open>DocumentProcessor.process_document\<close>

text \<open>
  \<open>store_metrics\<close> is the end of \<open>process_document\<close>, common to all file types: the
  metrics of \<open>self.raw_text\<close> and the text itself are stored in \<open>self.extracted_data\<close>.
  \<open>process_document\<close> returns that dictionary, with the processor as it has become.
  A file type other than \<open>pdf\<close> and \<open>excel\<close> leaves \<open>self.raw_text\<close> as it was.
\<close>

definition store_metrics :: "document_processor \<Rightarrow> document_processor" where
  "store_metrics self =
     self\<lparr>extracted_data := (extracted_data self)
       \<lparr>key_metrics := Some (extract_financial_metrics (raw_text self)),
        key_raw_text := Some (raw_text self)\<rparr>\<rparr>"

definition process_document ::
  "document_processor \<Rightarrow> uploaded_file \<Rightarrow> string \<Rightarrow> ui
     \<Rightarrow> (exn + extracted_data \<times> document_processor) \<times> ui" where
  "process_document self file file_type ui =
     (if file_type = ''pdf'' then
        (case extract_pdf_text file ui of
           (Inl e, ui') \<Rightarrow> (Inl e, ui')
         | (Inr text, ui') \<Rightarrow>
             (let self' = store_metrics (self\<lparr>raw_text := text\<rparr>)
              in (Inr (extracted_data self', self'), ui')))
      else if file_type = ''excel'' then
        (case extract_excel_data file ui of
           (Inl e, ui') \<Rightarrow> (Inl e, ui')
         | (Inr excel_data, ui') \<Rightarrow>
             (let all_text =
                    foldl (\<lambda>all_text sheet. all_text @ sheet_text (snd sheet) @ [CHR 0x0A])
                      [] excel_data;
                  self' = store_metrics
                    (self\<lparr>raw_text := all_text,
                          extracted_data := (extracted_data self)
                            \<lparr>key_excel_sheets := Some excel_data\<rparr>\<rparr>)
              in (Inr (extracted_data self', self'), ui')))
      else
        (let self' = store_metrics self
         in (Inr (extracted_data self', self'), ui)))"

section \<open>OllamaClient.generate_response\<close>

text \<open>
  The request that \<open>requests.post\<close> is given (its URL, its JSON payload and its
  timeout in seconds), and of the response what the program reads: the status code and
  the outcome of \<open>response.json()\<close>, which raises when the body is not JSON and otherwise
  gives the object, whose values are texts in the service's contract.
\<close>

record payload =
  payload_model :: string
  payload_prompt :: string
  payload_stream :: bool

record request =
  req_url :: string
  req_json :: payload
  req_timeout :: nat

record response =
  status_code :: int
  json_body :: "exn + (string \<times> string) list"

record ollama_client =
  base_url :: string

definition default_client :: ollama_client where
  "default_client = \<lparr>base_url = ''http://localhost:11434''\<rparr>"

text \<open>\<open>str\<close> of an integer, for the status code in the message.\<close>

function str_nat :: "nat \<Rightarrow> string" where
  "str_nat n = (if n < 10 then [char_of (48 + n)] else str_nat (n div 10) @ [char_of (48 + n mod 10)])"
  by pat_completeness auto
termination
  by (relation "measure id") auto

definition str_int :: "int \<Rightarrow> string" where
  "str_int i = (if i < 0 then CHR ''-'' # str_nat (nat (- i)) else str_nat (nat i))"

text \<open>
  The f-string \<open>full_prompt\<close>, character by character: every line of the literal starts
  with twelve spaces, the comment after the context is part of the string, and two lines
  of the instruction end with a space.
\<close>

definition indent :: string where
  "indent = replicate 12 (CHR '' '')"

definition full_prompt :: "string \<Rightarrow> string \<Rightarrow> string" where
  "full_prompt prompt context =
     [CHR 0x0A] @
     indent @ ''Context from financial document:'' @ [CHR 0x0A] @
     indent @ take 2000 context @ ''  # Limit context to avoid token limits'' @ [CHR 0x0A] @
     indent @ [CHR 0x0A] @
     indent @ ''User Question: '' @ prompt @ [CHR 0x0A] @
     indent @ [CHR 0x0A] @
     indent @ ''Please answer the question based on the financial document context provided above. ''
       @ [CHR 0x0A] @
     indent @ ''Be specific and use numbers when available. If you cannot find the information, ''
       @ [CHR 0x0A] @
     indent @ ''say so clearly.'' @ [CHR 0x0A] @
     indent"

definition build_request :: "ollama_client \<Rightarrow> string \<Rightarrow> string \<Rightarrow> request" where
  "build_request self prompt context =
     \<lparr>req_url = base_url self @ ''/api/generate'',
      req_json = \<lparr>payload_model = ''gemma:2b'',
                  payload_prompt = full_prompt prompt context,
                  payload_stream = False\<rparr>,
      req_timeout = 30\<rparr>"

text \<open>
  \<open>response.json()['response']\<close>: a missing key raises \<open>KeyError\<close>, whose text is the
  key in quotes.
\<close>

definition json_response :: "response \<Rightarrow> exn + string" where
  "json_response response =
     (case json_body response of
        Inl e \<Rightarrow> Inl e
      | Inr obj \<Rightarrow>
          (case map_of obj ''response'' of
             None \<Rightarrow> Inl (Exception ([CHR 0x27] @ ''response'' @ [CHR 0x27]))
           | Some answer \<Rightarrow> Inr answer))"

text \<open>
  \<open>request_answer\<close> is the body of the \<open>try\<close>, with \<open>post\<close> standing for
  \<open>requests.post\<close> and the service behind it; \<open>generate_response\<close> adds the two
  handlers, the one for \<open>ConnectionError\<close> first.
\<close>

definition request_answer ::
  "(request \<Rightarrow> exn + response) \<Rightarrow> ollama_client \<Rightarrow> string \<Rightarrow> string \<Rightarrow> exn + string" where
  "request_answer post self prompt context =
     (case post (build_request self prompt context) of
        Inl e \<Rightarrow> Inl e
      | Inr response \<Rightarrow>
          if status_code response = 200 then json_response response
          else Inr (''Error: Could not connect to Ollama (Status: ''
                      @ str_int (status_code response) @ '')''))"

definition could_not_connect :: string where
  "could_not_connect =
     ''Error: Could not connect to Ollama. Please make sure Ollama is running on localhost:11434''"

definition generate_response ::
  "(request \<Rightarrow> exn + response) \<Rightarrow> ollama_client \<Rightarrow> string \<Rightarrow> string \<Rightarrow> exn + string" where
  "generate_response post self prompt context =
     (case request_answer post self prompt context of
        Inr answer \<Rightarrow> Inr answer
      | Inl e \<Rightarrow>
          if is_ConnectionError e
          then Inr could_not_connect
          else Inr (''Error: '' @ str_exn e))"

section \<open>Claims about reading documents\<close>

lemma extract_empty: "extract_financial_metrics [] = []"
  by (simp add: eval_simps)

lemma update_fresh: "k \<notin> fst ` set al \<Longrightarrow> AList.update k v al = al @ [(k, v)]"
  by (induction al) auto

lemma excel_sheets_loop_distinct:
  "distinct (map fst acc @ map fst sheets) \<Longrightarrow>
   map (\<lambda>s. to_string (snd s)) sheets = map Inr texts \<Longrightarrow>
   excel_sheets_loop sheets acc =
     Inr (acc @ map (\<lambda>(s, t). (fst s, \<lparr>sheet_dataframe = snd s, sheet_text = t\<rparr>)) (zip sheets texts))"
proof (induction sheets arbitrary: acc texts)
  case Nil
  then show ?case by simp
next
  case (Cons s sheets)
  obtain n df where s: "s = (n, df)" by (cases s)
  from Cons.prems(2) obtain t ts where texts: "texts = t # ts" and t: "to_string df = Inr t"
    and ts: "map (\<lambda>s. to_string (snd s)) sheets = map Inr ts"
    by (cases texts) (auto simp: s)
  from Cons.prems(1) have fresh: "n \<notin> fst ` set acc"
    by (auto simp: s)
  let ?acc = "acc @ [(n, \<lparr>sheet_dataframe = df, sheet_text = t\<rparr>)]"
  from Cons.prems(1) have "distinct (map fst ?acc @ map fst sheets)"
    by (auto simp: s)
  then have "excel_sheets_loop sheets ?acc =
      Inr (?acc @ map (\<lambda>(s, t). (fst s, \<lparr>sheet_dataframe = snd s, sheet_text = t\<rparr>)) (zip sheets ts))"
    using ts by (rule Cons.IH)
  then show ?case
    by (simp add: s texts t update_fresh [OF fresh])
qed

lemma foldl_all_text:
  "foldl (\<lambda>all_text sheet. all_text @ sheet_text (snd sheet) @ [CHR 0x0A]) acc xs =
     acc @ concat (map (\<lambda>sheet. sheet_text (snd sheet) @ [CHR 0x0A]) xs)"
  by (induction xs arbitrary: acc) simp_all

lemma zip_texts:
  "length sheets = length texts \<Longrightarrow>
   map (\<lambda>sheet. sheet_text (snd sheet) @ [CHR 0x0A])
     (map (\<lambda>(s, t). (fst s, \<lparr>sheet_dataframe = snd s, sheet_text = t\<rparr>)) (zip sheets texts))
   = map (\<lambda>t. t @ [CHR 0x0A]) texts"
  by (induction sheets texts rule: list_induct2) simp_all

text \<open>
  C9: for a workbook that is read without an exception, with sheets of distinct names
  (the keys of the dictionary that \<open>read_excel\<close> returns) whose renderings are \<open>texts\<close>,
  in workbook order, the document text is the concatenation of the renderings in that
  order, each followed by a newline; nothing is shown as an error.
\<close>

theorem workbook_text_in_sheet_order:
  assumes "read_excel file = Inr sheets" and "distinct (map fst sheets)"
    and "map (\<lambda>s. to_string (snd s)) sheets = map Inr texts"
  shows "\<exists>d self'. process_document self file ''excel'' ui = (Inr (d, self'), ui)
           \<and> key_raw_text d = Some (concat (map (\<lambda>t. t @ [CHR 0x0A]) texts))
           \<and> raw_text self' = concat (map (\<lambda>t. t @ [CHR 0x0A]) texts)"
proof -
  let ?p = "map (\<lambda>(s, t). (fst s, \<lparr>sheet_dataframe = snd s, sheet_text = t\<rparr>)) (zip sheets texts)"
  have "excel_sheets_loop sheets [] = Inr ([] @ ?p)"
    using assms(2,3) by (intro excel_sheets_loop_distinct) simp_all
  then have w: "read_workbook file = Inr ?p"
    by (simp add: read_workbook_def assms(1))
  have "length sheets = length texts"
    using assms(3) by (metis length_map)
  then have "concat (map (\<lambda>sheet. sheet_text (snd sheet) @ [CHR 0x0A]) ?p)
      = concat (map (\<lambda>t. t @ [CHR 0x0A]) texts)"
    by (simp only: zip_texts)
  then show ?thesis
    by (simp add: process_document_def extract_excel_data_def w Let_def store_metrics_def
        foldl_all_text)
qed

text \<open>
  C9 at a workbook with the sheets \<open>A\<close> and \<open>B\<close>, in that order, of any renderings
  \<open>rA\<close> and \<open>rB\<close>: the text is \<open>rA\<close>, a newline, \<open>rB\<close>, a newline, so the rendering of
  \<open>A\<close> stands before that of \<open>B\<close>.
\<close>

theorem workbook_text_in_sheet_order_witness:
  "\<forall>rA rB.
     (read_excel \<lparr>pdf_reader = Inl (Exception ''not a PDF''),
                 read_excel = Inr [(''A'', DataFrame (Inr rA)), (''B'', DataFrame (Inr rB))]\<rparr>
        = Inr [(''A'', DataFrame (Inr rA)), (''B'', DataFrame (Inr rB))]
      \<and> distinct (map fst [(''A'', DataFrame (Inr rA)), (''B'', DataFrame (Inr rB))])
      \<and> map (\<lambda>s. to_string (snd s)) [(''A'', DataFrame (Inr rA)), (''B'', DataFrame (Inr rB))]
          = map Inr [rA, rB])
     \<and> (\<exists>d self'.
          process_document init_processor
            \<lparr>pdf_reader = Inl (Exception ''not a PDF''),
             read_excel = Inr [(''A'', DataFrame (Inr rA)), (''B'', DataFrame (Inr rB))]\<rparr>
            ''excel'' [] = (Inr (d, self'), [])
          \<and> key_raw_text d = Some (rA @ [CHR 0x0A] @ rB @ [CHR 0x0A]))"
proof (intro allI)
  fix rA rB :: string
  let ?sheets = "[(''A'', DataFrame (Inr rA)), (''B'', DataFrame (Inr rB))]"
  let ?file = "\<lparr>pdf_reader = Inl (Exception ''not a PDF''), read_excel = Inr ?sheets\<rparr>"
  have r: "read_excel ?file = Inr ?sheets" by simp
  have d: "distinct (map fst ?sheets)" by simp
  have t: "map (\<lambda>s. to_string (snd s)) ?sheets = map Inr [rA, rB]" by simp
  have c: "concat (map (\<lambda>t. t @ [CHR 0x0A]) [rA, rB]) = rA @ [CHR 0x0A] @ rB @ [CHR 0x0A]"
    by simp
  obtain d' self' where
    "process_document init_processor ?file ''excel'' [] = (Inr (d', self'), [])"
    "key_raw_text d' = Some (concat (map (\<lambda>t. t @ [CHR 0x0A]) [rA, rB]))"
    using workbook_text_in_sheet_order [OF r d t, of init_processor "[]"] by blast
  then have "\<exists>d self'. process_document init_processor ?file ''excel'' [] = (Inr (d, self'), [])
          \<and> key_raw_text d = Some (rA @ [CHR 0x0A] @ rB @ [CHR 0x0A])"
    unfolding c by blast
  with r d t show "(read_excel ?file = Inr ?sheets \<and> distinct (map fst ?sheets)
      \<and> map (\<lambda>s. to_string (snd s)) ?sheets = map Inr [rA, rB])
     \<and> (\<exists>d self'. process_document init_processor ?file ''excel'' [] = (Inr (d, self'), [])
          \<and> key_raw_text d = Some (rA @ [CHR 0x0A] @ rB @ [CHR 0x0A]))"
    by blast
qed

text \<open>
  C2, as stated, fails. For a file that \<open>PdfReader\<close> rejects with \<open>EOF marker not found\<close>,
  \<open>process_document\<close> does not fail: it shows the message and returns a result, with
  the empty text and no metrics.
\<close>

theorem unreadable_pdf_counterexample:
  "process_document init_processor
     \<lparr>pdf_reader = Inl (Exception ''EOF marker not found''),
      read_excel = Inl (Exception ''File is not a zip file'')\<rparr> ''pdf'' []
   = (Inr (\<lparr>key_excel_sheets = None, key_metrics = Some [], key_raw_text = Some []\<rparr>,
           \<lparr>extracted_data =
              \<lparr>key_excel_sheets = None, key_metrics = Some [], key_raw_text = Some []\<rparr>,
            raw_text = []\<rparr>),
      [''Error reading PDF: EOF marker not found''])"
  by (simp add: process_document_def extract_pdf_text_def read_pdf_def st_error_def
      store_metrics_def init_processor_def extract_empty)

text \<open>
  C2, amended: for every PDF whose reading raises an exception, at the reader or at a
  page, text extraction shows \<open>Error reading PDF:\<close> with the exception's text and returns
  the empty string, and the document-processing call returns a result whose text is empty
  and whose metrics are empty. No failure leaves either call.
\<close>

theorem unreadable_pdf_yields_empty_text:
  assumes "read_pdf file = Inl e"
  shows "extract_pdf_text file ui = (Inr [], ui @ [''Error reading PDF: '' @ str_exn e])
         \<and> (\<exists>d self'. process_document self file ''pdf'' ui
                         = (Inr (d, self'), ui @ [''Error reading PDF: '' @ str_exn e])
               \<and> key_raw_text d = Some [] \<and> key_metrics d = Some [])"
  using assms
  by (simp add: process_document_def extract_pdf_text_def st_error_def store_metrics_def
      extract_empty)

text \<open>
  C2, amended, at a PDF whose second page raises: the text of the first page is dropped
  with the rest.
\<close>

theorem unreadable_pdf_yields_empty_text_witness:
  "read_pdf \<lparr>pdf_reader = Inr [Inr ''Revenue: 5'', Inl (Exception ''bad page'')],
             read_excel = Inl (Exception ''File is not a zip file'')\<rparr>
     = Inl (Exception ''bad page'')
   \<and> extract_pdf_text \<lparr>pdf_reader = Inr [Inr ''Revenue: 5'', Inl (Exception ''bad page'')],
             read_excel = Inl (Exception ''File is not a zip file'')\<rparr> []
     = (Inr [], [] @ [''Error reading PDF: '' @ str_exn (Exception ''bad page'')])
   \<and> (\<exists>d self'. process_document init_processor
          \<lparr>pdf_reader = Inr [Inr ''Revenue: 5'', Inl (Exception ''bad page'')],
           read_excel = Inl (Exception ''File is not a zip file'')\<rparr> ''pdf'' []
          = (Inr (d, self'), [] @ [''Error reading PDF: '' @ str_exn (Exception ''bad page'')])
        \<and> key_raw_text d = Some [] \<and> key_metrics d = Some [])"
proof -
  let ?file = "\<lparr>pdf_reader = Inr [Inr ''Revenue: 5'', Inl (Exception ''bad page'')],
             read_excel = Inl (Exception ''File is not a zip file'')\<rparr>"
  have r: "read_pdf ?file = Inl (Exception ''bad page'')"
    by (simp add: read_pdf_def)
  show ?thesis
    using unreadable_pdf_yields_empty_text [OF r, of "[]" init_processor] r by blast
qed

section \<open>Claims about the answers\<close>

text \<open>
  C3, as stated, fails. When the connection is refused, the call for the question
  \<open>What was revenue?\<close> returns an ordinary string; it raises nothing.
\<close>

theorem connection_refused_counterexample:
  "generate_response (\<lambda>r. Inl (ConnectionError ''Connection refused'')) default_client
     ''What was revenue?'' ''Total Revenue: $1,234,567.89''
   = Inr ''Error: Could not connect to Ollama. Please make sure Ollama is running on localhost:11434''
   \<and> \<not> (\<exists>e. generate_response (\<lambda>r. Inl (ConnectionError ''Connection refused'')) default_client
     ''What was revenue?'' ''Total Revenue: $1,234,567.89'' = Inl e)"
  by (simp add: generate_response_def request_answer_def could_not_connect_def)

text \<open>
  C3, amended: for every question and context, when the request raises a
  \<open>ConnectionError\<close>, as a refused connection does, the call returns the string
  \<open>could_not_connect\<close>, an answer like any other.
\<close>

theorem connection_refused_returns_error_string:
  assumes "post (build_request self prompt context) = Inl e" and "is_ConnectionError e"
  shows "generate_response post self prompt context = Inr could_not_connect"
  using assms by (simp add: generate_response_def request_answer_def)

text \<open>C3, amended, at a refused connection.\<close>

theorem connection_refused_returns_error_string_witness:
  "(\<lambda>r. Inl (ConnectionError ''Connection refused'') :: exn + response)
      (build_request default_client ''What was revenue?'' ''Revenue: 5'')
     = Inl (ConnectionError ''Connection refused'')
   \<and> is_ConnectionError (ConnectionError ''Connection refused'')
   \<and> generate_response (\<lambda>r. Inl (ConnectionError ''Connection refused'')) default_client
        ''What was revenue?'' ''Revenue: 5'' = Inr could_not_connect"
proof -
  let ?post = "\<lambda>r. Inl (ConnectionError ''Connection refused'') :: exn + response"
  have p: "?post (build_request default_client ''What was revenue?'' ''Revenue: 5'')
      = Inl (ConnectionError ''Connection refused'')"
    by simp
  have c: "is_ConnectionError (ConnectionError ''Connection refused'')" by simp
  show ?thesis
    using connection_refused_returns_error_string [OF p c] p c by blast
qed

text \<open>
  C8, as stated, fails. When the wait for the response runs out, \<open>requests\<close> raises
  \<open>ReadTimeout\<close>, which is no \<open>ConnectionError\<close>: the call returns \<open>Error:\<close> with the
  exception's text, not the string it returns for an unreachable endpoint.
\<close>

theorem read_timeout_counterexample:
  "generate_response (\<lambda>r. Inl (ReadTimeout ''Read timed out. (read timeout=30)'')) default_client
     ''What was revenue?'' ''Revenue: 5''
   = Inr ''Error: Read timed out. (read timeout=30)''
   \<and> generate_response (\<lambda>r. Inl (ConnectionError ''Connection refused'')) default_client
     ''What was revenue?'' ''Revenue: 5''
   = Inr ''Error: Could not connect to Ollama. Please make sure Ollama is running on localhost:11434''
   \<and> generate_response (\<lambda>r. Inl (ReadTimeout ''Read timed out. (read timeout=30)'')) default_client
     ''What was revenue?'' ''Revenue: 5''
   \<noteq> generate_response (\<lambda>r. Inl (ConnectionError ''Connection refused'')) default_client
     ''What was revenue?'' ''Revenue: 5''"
  by (simp add: generate_response_def request_answer_def could_not_connect_def)

text \<open>
  C8, amended: for every question and context, when the request times out, the call
  returns an ordinary string: \<open>could_not_connect\<close>, as for an unreachable endpoint, when
  the connection timed out, and \<open>Error:\<close> with the exception's text when the response did.
\<close>

theorem timeout_returns_error_string:
  assumes "post (build_request self prompt context) = Inl e"
    and "e = ConnectTimeout m \<or> e = ReadTimeout m"
  shows "generate_response post self prompt context
           = Inr (if is_ConnectionError e then could_not_connect else ''Error: '' @ m)"
  using assms by (auto simp: generate_response_def request_answer_def)

text \<open>C8, amended, at a read timeout and at a connect timeout.\<close>

theorem timeout_returns_error_string_witness:
  "((\<lambda>r. Inl (ReadTimeout ''Read timed out.'') :: exn + response)
      (build_request default_client ''What was revenue?'' ''Revenue: 5'')
     = Inl (ReadTimeout ''Read timed out.'')
    \<and> (ReadTimeout ''Read timed out.'' = ConnectTimeout ''Read timed out.''
         \<or> ReadTimeout ''Read timed out.'' = ReadTimeout ''Read timed out.''))
   \<and> generate_response (\<lambda>r. Inl (ReadTimeout ''Read timed out.'')) default_client
        ''What was revenue?'' ''Revenue: 5'' = Inr ''Error: Read timed out.''
   \<and> generate_response (\<lambda>r. Inl (ConnectTimeout ''Connection timed out.'')) default_client
        ''What was revenue?'' ''Revenue: 5'' = Inr could_not_connect"
proof -
  let ?rt = "\<lambda>r. Inl (ReadTimeout ''Read timed out.'') :: exn + response"
  let ?ct = "\<lambda>r. Inl (ConnectTimeout ''Connection timed out.'') :: exn + response"
  let ?req = "build_request default_client ''What was revenue?'' ''Revenue: 5''"
  have p: "?rt ?req = Inl (ReadTimeout ''Read timed out.'')" by simp
  have k: "ReadTimeout ''Read timed out.'' = ConnectTimeout ''Read timed out.''
         \<or> ReadTimeout ''Read timed out.'' = ReadTimeout ''Read timed out.''" by simp
  have q: "?ct ?req = Inl (ConnectTimeout ''Connection timed out.'')" by simp
  have l: "ConnectTimeout ''Connection timed out.'' = ConnectTimeout ''Connection timed out.''
         \<or> ConnectTimeout ''Connection timed out.'' = ReadTimeout ''Connection timed out.''" by simp
  have a: "generate_response ?rt default_client ''What was revenue?'' ''Revenue: 5''
      = Inr ''Error: Read timed out.''"
    using timeout_returns_error_string [OF p k] by simp
  have b: "generate_response ?ct default_client ''What was revenue?'' ''Revenue: 5''
      = Inr could_not_connect"
    using timeout_returns_error_string [OF q l] by simp
  from p k a b show ?thesis by blast
qed




end
